theory Spec2Isabelle
  imports Complex_Main "HOL-Library.FSet"
begin

section \<open>Data model\<close>

text \<open>
  The health-check daemon in its richer variant (per-host minimum service counts,
  entrypoints, TTL rotation), the Go source that follows the build rules in
  \<^verbatim>\<open>Makefile\<close>. Go's \<^verbatim>\<open>int\<close> is modelled as \<^typ>\<open>int\<close> for the 64-bit
  targets of the build; the one addition of the program wraps explicitly
  (\<open>wrap_int\<close>). A \<^verbatim>\<open>float64\<close> that is only read, truncated and compared is a
  \<^typ>\<open>real\<close>. Log lines and the closing of response bodies do not reach any
  verdict and are left out.
\<close>

datatype error = Err string

datatype abort = Panic string | Fatal string

definition wrap_int :: "int \<Rightarrow> int" where
  "wrap_int i = (i + 2 ^ 63) mod 2 ^ 64 - 2 ^ 63"

record TraefikHost =
  Host :: string
  MinServices :: int

record Configuration =
  ListenAddr :: string
  PollInterval :: int
  TraefikHosts :: "TraefikHost list"
  ConsulHost :: string
  TraefikEntrypoints :: "string list"
  HealthyTTLSec :: int
  HealthyTTLOffset :: int

text \<open>
  The two maps of the providers listing are only measured with \<^verbatim>\<open>len\<close>, so a
  map is its finite set of keys; a missing field is the nil map, of length 0.
\<close>

record consul_catalog =
  Backends :: "string fset"
  Frontends :: "string fset"

record TraefikProviders =
  ConsulCatalog :: consul_catalog

record TraefikHealth =
  Uptime :: string
  UptimeSec :: real
  RequestCount :: int

text \<open>
  A response body is what \<^verbatim>\<open>json.NewDecoder(body).Decode(&v)\<close> makes of it for a
  zero-valued \<open>v\<close> of each of the two struct types: the error returned (if any) and
  the contents of \<open>v\<close> afterwards. The decoder stores the fields it could decode and
  reports the first type mismatch, so an error does not imply that \<open>v\<close> is still zero.
\<close>

record body =
  decode_providers :: "error option \<times> TraefikProviders"
  decode_health :: "error option \<times> TraefikHealth"

record response =
  StatusCode :: int
  Body :: body

subsection \<open>The outside world\<close>

text \<open>
  Every call that leaves the process is appended to a log, and the answer to a call
  may depend on the calls made before it.
\<close>

datatype call = NewClient string | StatusLeader string | Get string

record world =
  api_NewClient :: "call list \<Rightarrow> string \<Rightarrow> error option"
  status_Leader :: "call list \<Rightarrow> string \<Rightarrow> error + string"
  client_Get :: "call list \<Rightarrow> string \<Rightarrow> error + response"
  time_Now_Unix :: int
  rand_source :: "int \<Rightarrow> int"
  float64_overflow :: int

section \<open>TTL jitter\<close>

text \<open>
  \<^verbatim>\<open>rand.Intn(n)\<close> panics for \<open>n \<le> 0\<close> and otherwise returns a number of
  \<open>[0, n)\<close>; \<open>r\<close> is the raw draw of the freshly seeded source.
\<close>

definition rand_Intn :: "int \<Rightarrow> int \<Rightarrow> abort + int" where
  "rand_Intn r n = (if n \<le> 0 then Inl (Panic ''invalid argument to Intn'') else Inr (r mod n))"

definition computeTtl :: "world \<Rightarrow> int \<Rightarrow> int \<Rightarrow> abort + int" where
  "computeTtl w ttl offset =
     (case rand_Intn (rand_source w (time_Now_Unix w)) (offset - 0) of
        Inl p \<Rightarrow> Inl p
      | Inr r \<Rightarrow> Inr (wrap_int (r + ttl)))"

text \<open>
  The configuration file: absent (\<^verbatim>\<open>os.Stat\<close> fails), unreadable as JSON, or
  decoded, which updates the defaults it is decoded into.
\<close>

datatype config_file = NoFile | Malformed error | Decoded "Configuration \<Rightarrow> Configuration"

definition defaultHosts :: "TraefikHost list" where
  "defaultHosts = [\<lparr>Host = ''127.0.0.1:8080'', MinServices = 0\<rparr>]"

definition defaultConfig :: Configuration where
  "defaultConfig =
     \<lparr>ListenAddr = ''0.0.0.0:10700'', PollInterval = 10, TraefikHosts = defaultHosts,
      ConsulHost = ''127.0.0.1:8500'', TraefikEntrypoints = [], HealthyTTLSec = 0,
      HealthyTTLOffset = 43200\<rparr>"

definition newConfig :: "world \<Rightarrow> config_file \<Rightarrow> abort + Configuration" where
  "newConfig w file =
     (case (case file of
              NoFile \<Rightarrow> Inr defaultConfig
            | Malformed err \<Rightarrow> Inl (Fatal ''Unable to read config file. Check json is correct.'')
            | Decoded upd \<Rightarrow> Inr (upd defaultConfig)) of
        Inl a \<Rightarrow> Inl a
      | Inr config \<Rightarrow>
          if HealthyTTLSec config > 0
          then (case computeTtl w (HealthyTTLSec config) (HealthyTTLOffset config) of
                  Inl a \<Rightarrow> Inl a
                | Inr t \<Rightarrow> Inr (config\<lparr>HealthyTTLSec := t\<rparr>))
          else Inr config)"

section \<open>Backend probe\<close>

definition consulIsHealthy :: "world \<Rightarrow> string \<Rightarrow> call list \<Rightarrow> bool \<times> call list" where
  "consulIsHealthy w consulAddress s =
     (case api_NewClient w s consulAddress of
        Some err \<Rightarrow> (False, s @ [NewClient consulAddress])
      | None \<Rightarrow>
          (case status_Leader w (s @ [NewClient consulAddress]) consulAddress of
             Inl err \<Rightarrow> (False, s @ [NewClient consulAddress, StatusLeader consulAddress])
           | Inr leader \<Rightarrow>
               (if leader \<noteq> '''' then True else False,
                s @ [NewClient consulAddress, StatusLeader consulAddress])))"

section \<open>Proxy probe\<close>

definition providers_url :: "TraefikHost \<Rightarrow> string" where
  "providers_url host = ''http://'' @ Host host @ ''/api/providers''"

definition health_url :: "TraefikHost \<Rightarrow> string" where
  "health_url host = ''http://'' @ Host host @ ''/health''"

text \<open>
  \<^verbatim>\<open>int(f)\<close> discards the fraction; a value outside the range of \<^verbatim>\<open>int\<close>
  converts to a number that depends on the platform.
\<close>

definition float64_to_int :: "world \<Rightarrow> real \<Rightarrow> int" where
  "float64_to_int w f =
     (let t = (if f < 0 then \<lceil>f\<rceil> else \<lfloor>f\<rfloor>)
      in if - (2 ^ 63) \<le> t \<and> t < 2 ^ 63 then t else float64_overflow w)"

text \<open>The first loop of \<^verbatim>\<open>traefikIsHealthy\<close>: the provider listing of every host.\<close>

fun providers_loop :: "world \<Rightarrow> TraefikHost list \<Rightarrow> call list \<Rightarrow> bool \<times> call list" where
  "providers_loop w [] s = (True, s)"
| "providers_loop w (host # rest) s =
     (case client_Get w s (providers_url host) of
        Inl err \<Rightarrow> (False, s @ [Get (providers_url host)])
      | Inr response \<Rightarrow>
          if StatusCode response \<noteq> 200 then (False, s @ [Get (providers_url host)])
          else (case decode_providers (Body response) of
                  (err, providers) \<Rightarrow>
                    if err \<noteq> None then (False, s @ [Get (providers_url host)])
                    else if int (fcard (Backends (ConsulCatalog providers))) < MinServices host
                      then (False, s @ [Get (providers_url host)])
                    else if int (fcard (Frontends (ConsulCatalog providers))) < MinServices host
                      then (False, s @ [Get (providers_url host)])
                    else providers_loop w rest (s @ [Get (providers_url host)])))"

text \<open>The second loop, run only for \<open>ttl \<noteq> 0\<close>: the uptime of every host.\<close>

fun health_loop :: "world \<Rightarrow> int \<Rightarrow> TraefikHost list \<Rightarrow> call list \<Rightarrow> bool \<times> call list" where
  "health_loop w ttl [] s = (True, s)"
| "health_loop w ttl (host # rest) s =
     (case client_Get w s (health_url host) of
        Inl err \<Rightarrow> (False, s @ [Get (health_url host)])
      | Inr response \<Rightarrow>
          if StatusCode response \<noteq> 200 then (False, s @ [Get (health_url host)])
          else (case decode_health (Body response) of
                  (err, health) \<Rightarrow>
                    if float64_to_int w (UptimeSec health) > ttl
                      then (False, s @ [Get (health_url host)])
                    else health_loop w ttl rest (s @ [Get (health_url host)])))"

text \<open>The third loop: every entrypoint.\<close>

fun entrypoints_loop :: "world \<Rightarrow> string list \<Rightarrow> call list \<Rightarrow> bool \<times> call list" where
  "entrypoints_loop w [] s = (True, s)"
| "entrypoints_loop w (host # rest) s =
     (case client_Get w s host of
        Inl err \<Rightarrow> (False, s @ [Get host])
      | Inr response \<Rightarrow>
          if StatusCode response \<ge> 500 then (False, s @ [Get host])
          else entrypoints_loop w rest (s @ [Get host]))"

definition traefikIsHealthy ::
  "world \<Rightarrow> TraefikHost list \<Rightarrow> string list \<Rightarrow> int \<Rightarrow> call list \<Rightarrow> bool \<times> call list" where
  "traefikIsHealthy w traefikHosts traefikEntrypoints ttl s =
     (case providers_loop w traefikHosts s of
        (False, s1) \<Rightarrow> (False, s1)
      | (True, s1) \<Rightarrow>
          (case (if ttl \<noteq> 0 then health_loop w ttl traefikHosts s1 else (True, s1)) of
             (False, s2) \<Rightarrow> (False, s2)
           | (True, s2) \<Rightarrow> entrypoints_loop w traefikEntrypoints s2))"

section \<open>Aggregate verdict, polling and the responder\<close>

definition isLBHealthy :: "world \<Rightarrow> Configuration \<Rightarrow> call list \<Rightarrow> bool \<times> call list" where
  "isLBHealthy w config s =
     (case consulIsHealthy w (ConsulHost config) s of
        (False, s1) \<Rightarrow> (False, s1)
      | (True, s1) \<Rightarrow>
          traefikIsHealthy w (TraefikHosts config) (TraefikEntrypoints config)
            (HealthyTTLSec config) s1)"

text \<open>
  The process: the global \<^verbatim>\<open>healthy\<close>, the log of outside calls, and the responses
  written so far. \<^verbatim>\<open>pollHealth\<close> assigns the verdict to \<^verbatim>\<open>healthy\<close>, sleeps and
  calls itself, for ever: one cycle is one assignment, and a run of the process is a
  sequence of poll cycles and requests, each taken as a whole. The sleep is not
  modelled.
\<close>

record http_reply =
  status :: int
  written :: string

record process =
  healthy :: bool
  calls :: "call list"
  replies :: "http_reply list"

definition init_process :: process where
  "init_process = \<lparr>healthy = False, calls = [], replies = []\<rparr>"

definition pollHealth_cycle :: "world \<Rightarrow> Configuration \<Rightarrow> process \<Rightarrow> process" where
  "pollHealth_cycle w config p =
     (case isLBHealthy w config (calls p) of
        (h, s) \<Rightarrow> p\<lparr>healthy := h, calls := s\<rparr>)"

definition handler :: "process \<Rightarrow> http_reply" where
  "handler p =
     (if \<not> healthy p then \<lparr>status = 500, written = []\<rparr> else \<lparr>status = 200, written = []\<rparr>)"

datatype event = Poll | Request

fun step :: "world \<Rightarrow> Configuration \<Rightarrow> process \<Rightarrow> event \<Rightarrow> process" where
  "step w config p Poll = pollHealth_cycle w config p"
| "step w config p Request = p\<lparr>replies := replies p @ [handler p]\<rparr>"

definition run :: "world \<Rightarrow> Configuration \<Rightarrow> event list \<Rightarrow> process" where
  "run w config evs = foldl (step w config) init_process evs"

section \<open>The earlier variant\<close>

text \<open>
  \<^verbatim>\<open>traefik-healthcheck.go\<close> also exists in an earlier form: hosts are plain
  addresses, a listing needs at least one backend and one frontend, and there is no
  uptime or entrypoint step. Its \<^verbatim>\<open>consulIsHealthy\<close> is the one above.
\<close>

record Configuration_basic =
  ListenAddr_basic :: string
  PollInterval_basic :: int
  TraefikHosts_basic :: "string list"
  ConsulHost_basic :: string

fun traefikIsHealthy_basic :: "world \<Rightarrow> string list \<Rightarrow> call list \<Rightarrow> bool \<times> call list" where
  "traefikIsHealthy_basic w [] s = (True, s)"
| "traefikIsHealthy_basic w (host # rest) s =
     (case client_Get w s (''http://'' @ host @ ''/api/providers'') of
        Inl err \<Rightarrow> (False, s @ [Get (''http://'' @ host @ ''/api/providers'')])
      | Inr response \<Rightarrow>
          if StatusCode response \<noteq> 200
            then (False, s @ [Get (''http://'' @ host @ ''/api/providers'')])
          else (case decode_providers (Body response) of
                  (err, providers) \<Rightarrow>
                    if err \<noteq> None
                      then (False, s @ [Get (''http://'' @ host @ ''/api/providers'')])
                    else if fcard (Backends (ConsulCatalog providers)) = 0
                      then (False, s @ [Get (''http://'' @ host @ ''/api/providers'')])
                    else if fcard (Frontends (ConsulCatalog providers)) = 0
                      then (False, s @ [Get (''http://'' @ host @ ''/api/providers'')])
                    else traefikIsHealthy_basic w rest
                           (s @ [Get (''http://'' @ host @ ''/api/providers'')])))"

definition isLBHealthy_basic ::
  "world \<Rightarrow> Configuration_basic \<Rightarrow> call list \<Rightarrow> bool \<times> call list" where
  "isLBHealthy_basic w config s =
     (case consulIsHealthy w (ConsulHost_basic config) s of
        (False, s1) \<Rightarrow> (False, s1)
      | (True, s1) \<Rightarrow> traefikIsHealthy_basic w (TraefikHosts_basic config) s1)"

section \<open>Vocabulary of the properties\<close>

text \<open>
  The calls a loop logs for a list of targets, and, in the words of the
  specification, what makes one target fail each step. The outcome of a target is
  read at the log as it stands when the loop reaches that target.
\<close>

abbreviation gets :: "('a \<Rightarrow> string) \<Rightarrow> 'a list \<Rightarrow> call list" where
  "gets url xs \<equiv> map (\<lambda>x. Get (url x)) xs"

definition listing_fails :: "world \<Rightarrow> call list \<Rightarrow> TraefikHost \<Rightarrow> bool" where
  "listing_fails w s host =
     (case client_Get w s (providers_url host) of
        Inl err \<Rightarrow> True
      | Inr r \<Rightarrow>
          StatusCode r \<noteq> 200 \<or> fst (decode_providers (Body r)) \<noteq> None \<or>
          int (fcard (Backends (ConsulCatalog (snd (decode_providers (Body r)))))) < MinServices host \<or>
          int (fcard (Frontends (ConsulCatalog (snd (decode_providers (Body r)))))) < MinServices host)"

definition uptime_fails :: "world \<Rightarrow> int \<Rightarrow> call list \<Rightarrow> TraefikHost \<Rightarrow> bool" where
  "uptime_fails w ttl s host =
     (case client_Get w s (health_url host) of
        Inl err \<Rightarrow> True
      | Inr r \<Rightarrow>
          StatusCode r \<noteq> 200 \<or>
          float64_to_int w (UptimeSec (snd (decode_health (Body r)))) > ttl)"

definition entrypoint_fails :: "world \<Rightarrow> call list \<Rightarrow> string \<Rightarrow> bool" where
  "entrypoint_fails w s host =
     (case client_Get w s host of Inl err \<Rightarrow> True | Inr r \<Rightarrow> StatusCode r \<ge> 500)"

text \<open>
  The shape the three loops share, used in the proofs only: stop at the first bad
  target, logging one call per target reached.
\<close>

fun scan ::
  "(call list \<Rightarrow> 'a \<Rightarrow> bool) \<Rightarrow> ('a \<Rightarrow> string) \<Rightarrow> 'a list \<Rightarrow> call list \<Rightarrow> bool \<times> call list" where
  "scan bad url [] s = (True, s)"
| "scan bad url (x # xs) s =
     (if bad s x then (False, s @ [Get (url x)]) else scan bad url xs (s @ [Get (url x)]))"


subsection \<open>Concrete inputs\<close>

definition node_body :: body where
  "node_body =
     \<lparr>decode_providers =
        (None, \<lparr>ConsulCatalog = \<lparr>Backends = {|''api'', ''web''|}, Frontends = {|''api'', ''web''|}\<rparr>\<rparr>),
      decode_health = (None, \<lparr>Uptime = ''1m40s'', UptimeSec = 100, RequestCount = 7\<rparr>)\<rparr>"

definition steady_world :: world where
  "steady_world =
     \<lparr>api_NewClient = (\<lambda>s a. None),
      status_Leader = (\<lambda>s a. Inr ''node1''),
      client_Get = (\<lambda>s u. Inr \<lparr>StatusCode = 200, Body = node_body\<rparr>),
      time_Now_Unix = 1700000000,
      rand_source = (\<lambda>seed. seed),
      float64_overflow = - (2 ^ 63)\<rparr>"

definition hostA :: TraefikHost where
  "hostA = \<lparr>Host = ''a:8080'', MinServices = 1\<rparr>"

definition hostB :: TraefikHost where
  "hostB = \<lparr>Host = ''b:8080'', MinServices = 3\<rparr>"

text \<open>
  Every uptime body decodes to the given error and uptime; every entrypoint answers
  with the given status.
\<close>

definition uptime_world :: "error option \<Rightarrow> real \<Rightarrow> world" where
  "uptime_world e u =
     steady_world\<lparr>client_Get := (\<lambda>s url.
        Inr \<lparr>StatusCode = 200,
             Body = node_body\<lparr>decode_health :=
                      (e, \<lparr>Uptime = [], UptimeSec = u, RequestCount = 0\<rparr>)\<rparr>\<rparr>)\<rparr>"

definition edge_world :: "int \<Rightarrow> world" where
  "edge_world code =
     steady_world\<lparr>client_Get := (\<lambda>s url.
        if url = ''https://edge/'' then Inr \<lparr>StatusCode = code, Body = node_body\<rparr>
        else client_Get steady_world s url)\<rparr>"

text \<open>The discovery backend answers with an empty leader.\<close>

definition leaderless_world :: world where
  "leaderless_world = steady_world\<lparr>status_Leader := (\<lambda>s a. Inr [])\<rparr>"

definition basicConfig :: Configuration_basic where
  "basicConfig =
     \<lparr>ListenAddr_basic = ''0.0.0.0:10700'', PollInterval_basic = 10,
      TraefikHosts_basic = [''localhost:8080''], ConsulHost_basic = ''localhost:8500''\<rparr>"

section \<open>Properties\<close>

subsection \<open>The loops stop at the first failing target\<close>

lemma scan_first_bad:
  "i < length xs \<Longrightarrow> bad (s @ gets url (take i xs)) (xs ! i) \<Longrightarrow>
   (\<forall>k<i. \<not> bad (s @ gets url (take k xs)) (xs ! k)) \<Longrightarrow>
   scan bad url xs s = (False, s @ gets url (take (Suc i) xs))"
proof (induction xs arbitrary: s i)
  case Nil
  then show ?case by simp
next
  case (Cons x xs)
  show ?case
  proof (cases i)
    case 0
    with Cons.prems show ?thesis by simp
  next
    case (Suc j)
    from Cons.prems(3) Suc have good: "\<not> bad s x" by force
    have a: "j < length xs" using Cons.prems(1) Suc by simp
    have b: "bad ((s @ [Get (url x)]) @ gets url (take j xs)) (xs ! j)"
      using Cons.prems(2) Suc by simp
    have c: "\<forall>k<j. \<not> bad ((s @ [Get (url x)]) @ gets url (take k xs)) (xs ! k)"
    proof (intro allI impI)
      fix k assume "k < j"
      then have "Suc k < i" using Suc by simp
      with Cons.prems(3) have "\<not> bad (s @ gets url (take (Suc k) (x # xs))) ((x # xs) ! Suc k)"
        by blast
      then show "\<not> bad ((s @ [Get (url x)]) @ gets url (take k xs)) (xs ! k)" by simp
    qed
    from Cons.IH [OF a b c] good Suc show ?thesis by simp
  qed
qed

lemma scan_all_good:
  "(\<forall>k<length xs. \<not> bad (s @ gets url (take k xs)) (xs ! k)) \<Longrightarrow>
   scan bad url xs s = (True, s @ gets url xs)"
proof (induction xs arbitrary: s)
  case Nil
  then show ?case by simp
next
  case (Cons x xs)
  from Cons.prems have good: "\<not> bad s x" by force
  have c: "\<forall>k<length xs. \<not> bad ((s @ [Get (url x)]) @ gets url (take k xs)) (xs ! k)"
  proof (intro allI impI)
    fix k assume "k < length xs"
    then have "Suc k < length (x # xs)" by simp
    with Cons.prems have "\<not> bad (s @ gets url (take (Suc k) (x # xs))) ((x # xs) ! Suc k)"
      by blast
    then show "\<not> bad ((s @ [Get (url x)]) @ gets url (take k xs)) (xs ! k)" by simp
  qed
  from Cons.IH [OF c] good show ?case by simp
qed

lemma scan_cases:
  "(scan bad url xs s = (True, s @ gets url xs) \<and>
      (\<forall>k<length xs. \<not> bad (s @ gets url (take k xs)) (xs ! k))) \<or>
   (\<exists>j<length xs. scan bad url xs s = (False, s @ gets url (take (Suc j) xs)) \<and>
      bad (s @ gets url (take j xs)) (xs ! j) \<and>
      (\<forall>k<j. \<not> bad (s @ gets url (take k xs)) (xs ! k)))"
proof (cases "\<forall>k<length xs. \<not> bad (s @ gets url (take k xs)) (xs ! k)")
  case True
  then show ?thesis using scan_all_good [of xs bad s url] by simp
next
  case False
  define P where "P k \<longleftrightarrow> k < length xs \<and> bad (s @ gets url (take k xs)) (xs ! k)" for k
  from False have ex: "\<exists>k. P k" by (auto simp: P_def)
  define j where "j = (LEAST k. P k)"
  have Pj: "P j" unfolding j_def using ex by (rule LeastI_ex)
  have least: "\<And>k. k < j \<Longrightarrow> \<not> P k" unfolding j_def by (rule not_less_Least)
  have jl: "j < length xs" and jb: "bad (s @ gets url (take j xs)) (xs ! j)"
    using Pj by (simp_all add: P_def)
  have before: "\<forall>k<j. \<not> bad (s @ gets url (take k xs)) (xs ! k)"
    using least jl by (auto simp: P_def)
  from scan_first_bad [OF jl jb before] jl jb before show ?thesis by blast
qed

lemma scan_fst:
  "fst (scan bad url xs s) = (\<forall>k<length xs. \<not> bad (s @ gets url (take k xs)) (xs ! k))"
  using scan_cases [of bad url xs s] by auto

lemma providers_loop_scan: "providers_loop w hosts s = scan (listing_fails w) providers_url hosts s"
  by (induction hosts arbitrary: s) (auto simp: listing_fails_def split: sum.split prod.split)

lemma health_loop_scan: "health_loop w ttl hosts s = scan (uptime_fails w ttl) health_url hosts s"
  by (induction hosts arbitrary: s) (auto simp: uptime_fails_def split: sum.split prod.split)

lemma entrypoints_loop_scan: "entrypoints_loop w eps s = scan (entrypoint_fails w) (\<lambda>u. u) eps s"
  by (induction eps arbitrary: s) (auto simp: entrypoint_fails_def split: sum.split)

lemma traefikIsHealthy_scan:
  "traefikIsHealthy w hosts eps ttl s =
     (case scan (listing_fails w) providers_url hosts s of
        (False, s1) \<Rightarrow> (False, s1)
      | (True, s1) \<Rightarrow>
          (case (if ttl \<noteq> 0 then scan (uptime_fails w ttl) health_url hosts s1 else (True, s1)) of
             (False, s2) \<Rightarrow> (False, s2)
           | (True, s2) \<Rightarrow> scan (entrypoint_fails w) (\<lambda>u. u) eps s2))"
  by (simp add: traefikIsHealthy_def providers_loop_scan health_loop_scan entrypoints_loop_scan
        split: prod.split bool.split)

subsection \<open>Backend probe\<close>

text \<open>
  C6. The backend probe returns true exactly when the client is built without error
  and the leader query returns, without error, a non-empty leader; a client error
  or a query error gives false. The probe is a total function to a boolean: no error
  value leaves it.
\<close>

theorem consulIsHealthy_iff_leader:
  "fst (consulIsHealthy w address s) =
     (api_NewClient w s address = None \<and>
      (\<exists>leader. status_Leader w (s @ [NewClient address]) address = Inr leader \<and> leader \<noteq> ''''))"
  by (simp add: consulIsHealthy_def split: option.split sum.split)

subsection \<open>Proxy probe: provider listings\<close>

text \<open>
  C4. If the provider listing of any one target fails (a network error, a status
  other than 200, a payload that does not decode, or fewer distinct backend names or
  frontend names than the target's minimum), the proxy probe returns unhealthy,
  whatever the other targets, the entrypoints and the TTL are; and it stops at the first
  failing target \<open>j\<close>: the calls it made are the listings of the targets up to
  \<open>j\<close> and nothing else.
\<close>

theorem listing_failure_unhealthy:
  assumes "i < length hosts"
    and "listing_fails w (s @ gets providers_url (take i hosts)) (hosts ! i)"
  shows "\<exists>j\<le>i. listing_fails w (s @ gets providers_url (take j hosts)) (hosts ! j) \<and>
           (\<forall>k<j. \<not> listing_fails w (s @ gets providers_url (take k hosts)) (hosts ! k)) \<and>
           traefikIsHealthy w hosts eps ttl s = (False, s @ gets providers_url (take (Suc j) hosts))"
proof -
  from scan_cases [of "listing_fails w" providers_url hosts s] assms
  obtain j where j: "j < length hosts"
    and sc: "scan (listing_fails w) providers_url hosts s = (False, s @ gets providers_url (take (Suc j) hosts))"
    and bad: "listing_fails w (s @ gets providers_url (take j hosts)) (hosts ! j)"
    and before: "\<forall>k<j. \<not> listing_fails w (s @ gets providers_url (take k hosts)) (hosts ! k)"
    by blast
  have "j \<le> i"
  proof (rule ccontr)
    assume "\<not> j \<le> i"
    then have "i < j" by simp
    with before assms(2) show False by blast
  qed
  moreover have "traefikIsHealthy w hosts eps ttl s = (False, s @ gets providers_url (take (Suc j) hosts))"
    by (simp add: traefikIsHealthy_scan sc)
  ultimately show ?thesis using bad before by blast
qed

theorem listing_failure_unhealthy_witness:
  "(1::nat) < length [hostA, hostB] \<and>
   listing_fails steady_world ([] @ gets providers_url (take 1 [hostA, hostB])) ([hostA, hostB] ! 1) \<and>
   traefikIsHealthy steady_world [hostA, hostB] [''http://a/''] 0 [] =
     (False, [Get ''http://a:8080/api/providers'', Get ''http://b:8080/api/providers''])"
proof -
  have len: "(1::nat) < length [hostA, hostB]" by simp
  have bad1: "listing_fails steady_world ([] @ gets providers_url (take 1 [hostA, hostB])) ([hostA, hostB] ! 1)"
    by (simp add: listing_fails_def steady_world_def node_body_def hostB_def fcard_finsert_if)
  have good0: "\<not> listing_fails steady_world ([] @ gets providers_url (take 0 [hostA, hostB])) ([hostA, hostB] ! 0)"
    by (simp add: listing_fails_def steady_world_def node_body_def hostA_def fcard_finsert_if)
  from listing_failure_unhealthy [OF len bad1, of "[''http://a/'']" 0]
  obtain j where j: "j \<le> 1"
    and bj: "listing_fails steady_world ([] @ gets providers_url (take j [hostA, hostB])) ([hostA, hostB] ! j)"
    and r: "traefikIsHealthy steady_world [hostA, hostB] [''http://a/''] 0 [] =
             (False, [] @ gets providers_url (take (Suc j) [hostA, hostB]))"
    by blast
  have "j = 1"
  proof (rule ccontr)
    assume "j \<noteq> 1"
    with j have "j = 0" by simp
    with bj good0 show False by simp
  qed
  with r have "traefikIsHealthy steady_world [hostA, hostB] [''http://a/''] 0 [] =
     (False, [Get ''http://a:8080/api/providers'', Get ''http://b:8080/api/providers''])"
    by (simp add: providers_url_def hostA_def hostB_def)
  with len bad1 show ?thesis by blast
qed

subsection \<open>Proxy probe: entrypoints\<close>

lemma entrypoint_passes_iff:
  "(\<not> entrypoint_fails w s u) = (\<exists>r. client_Get w s u = Inr r \<and> StatusCode r < 500)"
  by (cases "client_Get w s u") (auto simp: entrypoint_fails_def)

lemma providers_loop_hostA:
  "providers_loop (edge_world c) [hostA] [] = (True, [Get ''http://a:8080/api/providers''])"
  by (simp add: edge_world_def steady_world_def node_body_def hostA_def providers_url_def
      fcard_finsert_if)

text \<open>
  C5. Once the listing step and the uptime step have passed, the proxy probe is healthy
  exactly when every entrypoint answers, without a network error, with a status below
  500. So a 404 is tolerated and a 503, like any status from 500 on and any network
  error, makes the probe unhealthy.
\<close>

theorem entrypoint_status_threshold:
  assumes "providers_loop w hosts s = (True, s1)"
    and "(if ttl \<noteq> 0 then health_loop w ttl hosts s1 else (True, s1)) = (True, s2)"
  shows "fst (traefikIsHealthy w hosts eps ttl s) =
           (\<forall>i<length eps. \<exists>r. client_Get w (s2 @ map Get (take i eps)) (eps ! i) = Inr r \<and>
                                  StatusCode r < 500)"
proof -
  have "traefikIsHealthy w hosts eps ttl s = entrypoints_loop w eps s2"
    using assms by (simp add: traefikIsHealthy_def split: if_splits)
  then show ?thesis
    by (simp add: entrypoints_loop_scan scan_fst entrypoint_passes_iff)
qed

theorem entrypoint_status_threshold_witness:
  "providers_loop (edge_world 404) [hostA] [] = (True, [Get ''http://a:8080/api/providers'']) \<and>
   fst (traefikIsHealthy (edge_world 404) [hostA] [''https://edge/''] 0 []) = True \<and>
   fst (traefikIsHealthy (edge_world 503) [hostA] [''https://edge/''] 0 []) = False"
proof -
  have p4: "providers_loop (edge_world 404) [hostA] [] = (True, [Get ''http://a:8080/api/providers''])"
    by (rule providers_loop_hostA)
  have p5: "providers_loop (edge_world 503) [hostA] [] = (True, [Get ''http://a:8080/api/providers''])"
    by (rule providers_loop_hostA)
  have h4: "(if (0::int) \<noteq> 0
             then health_loop (edge_world 404) 0 [hostA] [Get ''http://a:8080/api/providers'']
             else (True, [Get ''http://a:8080/api/providers''])) =
            (True, [Get ''http://a:8080/api/providers''])"
    by simp
  have h5: "(if (0::int) \<noteq> 0
             then health_loop (edge_world 503) 0 [hostA] [Get ''http://a:8080/api/providers'']
             else (True, [Get ''http://a:8080/api/providers''])) =
            (True, [Get ''http://a:8080/api/providers''])"
    by simp
  have a: "fst (traefikIsHealthy (edge_world 404) [hostA] [''https://edge/''] 0 []) = True"
    using entrypoint_status_threshold [OF p4 h4, of "[''https://edge/'']"]
    by (simp add: edge_world_def)
  have b: "fst (traefikIsHealthy (edge_world 503) [hostA] [''https://edge/''] 0 []) = False"
    using entrypoint_status_threshold [OF p5 h5, of "[''https://edge/'']"]
    by (simp add: edge_world_def)
  from p4 a b show ?thesis by simp
qed

subsection \<open>Proxy probe: TTL rotation\<close>

lemma float64_to_int_floor:
  "0 \<le> u \<Longrightarrow> u < 2 ^ 63 \<Longrightarrow> float64_to_int w u = \<lfloor>u\<rfloor>"
proof -
  assume a: "0 \<le> u" and b: "u < 2 ^ 63"
  have "0 \<le> \<lfloor>u\<rfloor>" using a by simp
  moreover have "\<lfloor>u\<rfloor> < 2 ^ 63"
  proof -
    have "u < of_int (2 ^ 63)" using b by simp
    then show ?thesis by (simp only: floor_less_iff)
  qed
  ultimately show ?thesis using a by (simp add: float64_to_int_def Let_def)
qed

lemma providers_loop_hostA_uptime:
  "providers_loop (uptime_world e u) [hostA] [] = (True, [Get ''http://a:8080/api/providers''])"
  by (simp add: uptime_world_def steady_world_def node_body_def hostA_def providers_url_def
      fcard_finsert_if)

text \<open>
  C3, as the code has it. The uptime is converted to an integer, which discards its
  fraction, before it is compared: with TTL rotation on (\<open>ttl \<noteq> 0\<close>) and the
  listings passed, the probe is healthy exactly when every target's uptime fetch
  succeeds with status 200 and the truncated uptime is at most \<open>ttl\<close>, and the
  entrypoints pass. An uptime equal to \<open>ttl\<close> passes, and so does one that exceeds
  it by less than a second. With \<open>ttl = 0\<close> the probe goes from the listings straight
  to the entrypoints: no uptime is fetched.
\<close>

theorem uptime_compared_after_truncation:
  assumes "providers_loop w hosts s = (True, s1)"
  shows "(ttl \<noteq> 0 \<longrightarrow>
            fst (traefikIsHealthy w hosts eps ttl s) =
              ((\<forall>i<length hosts.
                   \<not> uptime_fails w ttl (s1 @ gets health_url (take i hosts)) (hosts ! i)) \<and>
               fst (entrypoints_loop w eps (s1 @ gets health_url hosts)))) \<and>
         (ttl = 0 \<longrightarrow> traefikIsHealthy w hosts eps ttl s = entrypoints_loop w eps s1) \<and>
         (\<forall>u. 0 \<le> u \<and> u < 2 ^ 63 \<longrightarrow> float64_to_int w u = \<lfloor>u\<rfloor>)"
proof (intro conjI impI allI)
  assume nz: "ttl \<noteq> 0"
  let ?ok = "\<forall>i<length hosts. \<not> uptime_fails w ttl (s1 @ gets health_url (take i hosts)) (hosts ! i)"
  show "fst (traefikIsHealthy w hosts eps ttl s) =
          (?ok \<and> fst (entrypoints_loop w eps (s1 @ gets health_url hosts)))"
  proof (cases ?ok)
    case True
    then have "health_loop w ttl hosts s1 = (True, s1 @ gets health_url hosts)"
      by (simp add: health_loop_scan scan_all_good)
    with assms nz True show ?thesis by (simp add: traefikIsHealthy_def)
  next
    case False
    then have "\<not> fst (health_loop w ttl hosts s1)"
      by (simp add: health_loop_scan scan_fst)
    then have "fst (traefikIsHealthy w hosts eps ttl s) = False"
      using assms nz by (cases "health_loop w ttl hosts s1") (simp add: traefikIsHealthy_def)
    with False show ?thesis by simp
  qed
next
  assume "ttl = 0"
  with assms show "traefikIsHealthy w hosts eps ttl s = entrypoints_loop w eps s1"
    by (simp add: traefikIsHealthy_def)
next
  fix u :: real
  assume "0 \<le> u \<and> u < 2 ^ 63"
  then show "float64_to_int w u = \<lfloor>u\<rfloor>" by (simp add: float64_to_int_floor)
qed

theorem uptime_compared_after_truncation_witness:
  "providers_loop (uptime_world None 100) [hostA] [] = (True, [Get ''http://a:8080/api/providers'']) \<and>
   fst (traefikIsHealthy (uptime_world None 100) [hostA] [] 100 []) = True \<and>
   fst (traefikIsHealthy (uptime_world None 100) [hostA] [] 99 []) = False \<and>
   traefikIsHealthy (uptime_world None 100) [hostA] [''https://edge/''] 0 [] =
     entrypoints_loop (uptime_world None 100) [''https://edge/''] [Get ''http://a:8080/api/providers''] \<and>
   float64_to_int (uptime_world None 100) (201 / 2) = 100"
proof -
  have p: "providers_loop (uptime_world None 100) [hostA] [] = (True, [Get ''http://a:8080/api/providers''])"
    by (rule providers_loop_hostA_uptime)
  have f: "float64_to_int (uptime_world None 100) 100 = 100"
    by (simp add: float64_to_int_def)
  have a: "fst (traefikIsHealthy (uptime_world None 100) [hostA] [] 100 []) = True"
    using uptime_compared_after_truncation [OF p, of 100 "[]"] f
    by (simp add: uptime_fails_def uptime_world_def)
  have b: "fst (traefikIsHealthy (uptime_world None 100) [hostA] [] 99 []) = False"
    using uptime_compared_after_truncation [OF p, of 99 "[]"] f
    by (simp add: uptime_fails_def uptime_world_def)
  have c: "traefikIsHealthy (uptime_world None 100) [hostA] [''https://edge/''] 0 [] =
     entrypoints_loop (uptime_world None 100) [''https://edge/''] [Get ''http://a:8080/api/providers'']"
    using uptime_compared_after_truncation [OF p, of 0 "[''https://edge/'']"] by simp
  have d: "float64_to_int (uptime_world None 100) (201 / 2) = 100"
    using uptime_compared_after_truncation [OF p, of 0 "[]"] by simp
  from p a b c d show ?thesis by simp
qed

theorem fractional_uptime_counterexample:
  "client_Get (uptime_world None (201 / 2)) [Get ''http://a:8080/api/providers''] (health_url hostA) =
     Inr \<lparr>StatusCode = 200,
          Body = node_body\<lparr>decode_health :=
                   (None, \<lparr>Uptime = [], UptimeSec = 201 / 2, RequestCount = 0\<rparr>)\<rparr>\<rparr> \<and>
   (0::int) < 100 \<and> real_of_int 100 < 201 / 2 \<and>
   traefikIsHealthy (uptime_world None (201 / 2)) [hostA] [] 100 [] =
     (True, [Get ''http://a:8080/api/providers'', Get ''http://a:8080/health''])"
  by (simp add: traefikIsHealthy_def uptime_world_def steady_world_def node_body_def hostA_def
      providers_url_def health_url_def fcard_finsert_if float64_to_int_def)

subsection \<open>Proxy probe: a failed decode of the uptime\<close>









subsection \<open>Aggregate verdict\<close>

lemma consulIsHealthy_verdict:
  "fst (consulIsHealthy w address s) =
     (api_NewClient w s address = None \<and>
      (\<exists>leader. status_Leader w (s @ [NewClient address]) address = Inr leader \<and> leader \<noteq> []))"
  by (simp add: consulIsHealthy_def split: option.split sum.split)

lemma consulIsHealthy_calls:
  "\<exists>ev. snd (consulIsHealthy w address s) = s @ ev \<and> (\<forall>u. Get u \<notin> set ev)"
  by (simp add: consulIsHealthy_def split: option.split sum.split)

text \<open>
  C1. The aggregate verdict is the conjunction of the backend probe and the proxy
  probe, the proxy probe running on the log the backend probe leaves. When the backend
  probe is false (the client cannot be built, the leader query fails, or the leader is
  empty) the verdict is false and the probe stops there: its log is the backend
  probe's, with no HTTP request in it. The same holds of the earlier variant.
\<close>

theorem isLBHealthy_short_circuit_and:
  "fst (isLBHealthy w config s) =
     (fst (consulIsHealthy w (ConsulHost config) s) \<and>
      fst (traefikIsHealthy w (TraefikHosts config) (TraefikEntrypoints config)
             (HealthyTTLSec config) (snd (consulIsHealthy w (ConsulHost config) s)))) \<and>
   (\<not> fst (consulIsHealthy w (ConsulHost config) s) \<longrightarrow>
      isLBHealthy w config s = (False, snd (consulIsHealthy w (ConsulHost config) s)) \<and>
      (\<exists>ev. snd (isLBHealthy w config s) = s @ ev \<and> (\<forall>u. Get u \<notin> set ev))) \<and>
   (api_NewClient w s (ConsulHost config) \<noteq> None \<or>
    (\<exists>e. status_Leader w (s @ [NewClient (ConsulHost config)]) (ConsulHost config) = Inl e) \<or>
    status_Leader w (s @ [NewClient (ConsulHost config)]) (ConsulHost config) = Inr []
    \<longrightarrow> fst (isLBHealthy w config s) = False) \<and>
   fst (isLBHealthy_basic w basic s) =
     (fst (consulIsHealthy w (ConsulHost_basic basic) s) \<and>
      fst (traefikIsHealthy_basic w (TraefikHosts_basic basic)
             (snd (consulIsHealthy w (ConsulHost_basic basic) s)))) \<and>
   (\<not> fst (consulIsHealthy w (ConsulHost_basic basic) s) \<longrightarrow>
      isLBHealthy_basic w basic s = (False, snd (consulIsHealthy w (ConsulHost_basic basic) s)) \<and>
      (\<exists>ev. snd (isLBHealthy_basic w basic s) = s @ ev \<and> (\<forall>u. Get u \<notin> set ev)))"
proof -
  obtain b s1 where c: "consulIsHealthy w (ConsulHost config) s = (b, s1)"
    by (cases "consulIsHealthy w (ConsulHost config) s")
  obtain b' s1' where c': "consulIsHealthy w (ConsulHost_basic basic) s = (b', s1')"
    by (cases "consulIsHealthy w (ConsulHost_basic basic) s")
  have 1: "fst (isLBHealthy w config s) =
     (fst (consulIsHealthy w (ConsulHost config) s) \<and>
      fst (traefikIsHealthy w (TraefikHosts config) (TraefikEntrypoints config)
             (HealthyTTLSec config) (snd (consulIsHealthy w (ConsulHost config) s))))"
    by (cases b) (simp_all add: isLBHealthy_def c)
  have 2: "\<not> fst (consulIsHealthy w (ConsulHost config) s) \<longrightarrow>
      isLBHealthy w config s = (False, snd (consulIsHealthy w (ConsulHost config) s)) \<and>
      (\<exists>ev. snd (isLBHealthy w config s) = s @ ev \<and> (\<forall>u. Get u \<notin> set ev))"
    using consulIsHealthy_calls [of w "ConsulHost config" s]
    by (cases b) (simp_all add: isLBHealthy_def c)
  have 3: "api_NewClient w s (ConsulHost config) \<noteq> None \<or>
    (\<exists>e. status_Leader w (s @ [NewClient (ConsulHost config)]) (ConsulHost config) = Inl e) \<or>
    status_Leader w (s @ [NewClient (ConsulHost config)]) (ConsulHost config) = Inr []
    \<longrightarrow> fst (isLBHealthy w config s) = False"
    unfolding 1 consulIsHealthy_verdict by auto
  have 4: "fst (isLBHealthy_basic w basic s) =
     (fst (consulIsHealthy w (ConsulHost_basic basic) s) \<and>
      fst (traefikIsHealthy_basic w (TraefikHosts_basic basic)
             (snd (consulIsHealthy w (ConsulHost_basic basic) s))))"
    by (cases b') (simp_all add: isLBHealthy_basic_def c')
  have 5: "\<not> fst (consulIsHealthy w (ConsulHost_basic basic) s) \<longrightarrow>
      isLBHealthy_basic w basic s = (False, snd (consulIsHealthy w (ConsulHost_basic basic) s)) \<and>
      (\<exists>ev. snd (isLBHealthy_basic w basic s) = s @ ev \<and> (\<forall>u. Get u \<notin> set ev))"
    using consulIsHealthy_calls [of w "ConsulHost_basic basic" s]
    by (cases b') (simp_all add: isLBHealthy_basic_def c')
  from 1 2 3 4 5 show ?thesis by blast
qed

theorem isLBHealthy_short_circuit_and_witness:
  "\<not> fst (consulIsHealthy leaderless_world (ConsulHost defaultConfig) []) \<and>
   status_Leader leaderless_world ([] @ [NewClient (ConsulHost defaultConfig)]) (ConsulHost defaultConfig) = Inr [] \<and>
   isLBHealthy leaderless_world defaultConfig [] =
     (False, [NewClient ''127.0.0.1:8500'', StatusLeader ''127.0.0.1:8500'']) \<and>
   isLBHealthy_basic leaderless_world basicConfig [] =
     (False, [NewClient ''localhost:8500'', StatusLeader ''localhost:8500''])"
proof -
  have a: "\<not> fst (consulIsHealthy leaderless_world (ConsulHost defaultConfig) [])"
    by (simp add: consulIsHealthy_def leaderless_world_def steady_world_def)
  have a': "\<not> fst (consulIsHealthy leaderless_world (ConsulHost_basic basicConfig) [])"
    by (simp add: consulIsHealthy_def leaderless_world_def steady_world_def)
  have b: "status_Leader leaderless_world ([] @ [NewClient (ConsulHost defaultConfig)]) (ConsulHost defaultConfig) = Inr []"
    by (simp add: leaderless_world_def)
  have c: "snd (consulIsHealthy leaderless_world (ConsulHost defaultConfig) []) =
             [NewClient ''127.0.0.1:8500'', StatusLeader ''127.0.0.1:8500'']"
    by (simp add: consulIsHealthy_def leaderless_world_def steady_world_def defaultConfig_def)
  have c': "snd (consulIsHealthy leaderless_world (ConsulHost_basic basicConfig) []) =
             [NewClient ''localhost:8500'', StatusLeader ''localhost:8500'']"
    by (simp add: consulIsHealthy_def leaderless_world_def steady_world_def basicConfig_def)
  from isLBHealthy_short_circuit_and [of leaderless_world defaultConfig "[]" basicConfig] a a' b c c'
  show ?thesis by simp
qed

text \<open>
  C10. With no proxy target, no entrypoint and \<open>ttl = 0\<close> the proxy probe is healthy
  and makes no call; the aggregate verdict is then the backend probe's, so a healthy
  backend gives a healthy verdict.
\<close>

theorem no_targets_vacuously_healthy:
  "traefikIsHealthy w [] [] 0 s = (True, s) \<and>
   (TraefikHosts config = [] \<and> TraefikEntrypoints config = [] \<and> HealthyTTLSec config = 0 \<longrightarrow>
      isLBHealthy w config s = consulIsHealthy w (ConsulHost config) s \<and>
      (fst (consulIsHealthy w (ConsulHost config) s) \<longrightarrow> fst (isLBHealthy w config s)))"
proof -
  have t: "traefikIsHealthy w [] [] 0 s' = (True, s')" for s'
    by (simp add: traefikIsHealthy_def)
  have "isLBHealthy w config s = consulIsHealthy w (ConsulHost config) s"
    if "TraefikHosts config = [] \<and> TraefikEntrypoints config = [] \<and> HealthyTTLSec config = 0"
  proof -
    obtain b s1 where c: "consulIsHealthy w (ConsulHost config) s = (b, s1)"
      by (cases "consulIsHealthy w (ConsulHost config) s")
    show ?thesis using that by (cases b) (simp_all add: isLBHealthy_def c t)
  qed
  with t show ?thesis by simp
qed

theorem no_targets_vacuously_healthy_witness:
  "TraefikHosts (defaultConfig\<lparr>TraefikHosts := []\<rparr>) = [] \<and>
   TraefikEntrypoints (defaultConfig\<lparr>TraefikHosts := []\<rparr>) = [] \<and>
   HealthyTTLSec (defaultConfig\<lparr>TraefikHosts := []\<rparr>) = 0 \<and>
   isLBHealthy steady_world (defaultConfig\<lparr>TraefikHosts := []\<rparr>) [] =
     (True, [NewClient ''127.0.0.1:8500'', StatusLeader ''127.0.0.1:8500''])"
proof -
  have h: "TraefikHosts (defaultConfig\<lparr>TraefikHosts := []\<rparr>) = [] \<and>
           TraefikEntrypoints (defaultConfig\<lparr>TraefikHosts := []\<rparr>) = [] \<and>
           HealthyTTLSec (defaultConfig\<lparr>TraefikHosts := []\<rparr>) = 0"
    by (simp add: defaultConfig_def)
  have c: "consulIsHealthy steady_world (ConsulHost (defaultConfig\<lparr>TraefikHosts := []\<rparr>)) [] =
             (True, [NewClient ''127.0.0.1:8500'', StatusLeader ''127.0.0.1:8500''])"
    by (simp add: consulIsHealthy_def steady_world_def defaultConfig_def)
  from no_targets_vacuously_healthy [of steady_world "[]" "defaultConfig\<lparr>TraefikHosts := []\<rparr>"] h c
  show ?thesis by simp
qed

subsection \<open>Responder and polling\<close>

lemma handler_status:
  "handler p = \<lparr>status = (if healthy p then 200 else 500), written = []\<rparr>"
  by (simp add: handler_def)

lemma requests_before_first_poll:
  "Poll \<notin> set evs \<Longrightarrow> \<not> healthy p \<Longrightarrow>
   foldl (step w config) p evs =
     p\<lparr>replies := replies p @ replicate (length evs) \<lparr>status = 500, written = []\<rparr>\<rparr>"
proof (induction evs arbitrary: p)
  case Nil
  show ?case by simp
next
  case (Cons ev evs)
  from Cons.prems(1) have ev: "ev = Request" and rest: "Poll \<notin> set evs"
    by (cases ev, simp_all)+
  let ?p = "p\<lparr>replies := replies p @ [handler p]\<rparr>"
  have h: "\<not> healthy ?p" using Cons.prems(2) by simp
  show ?case
    using Cons.IH [OF rest h] ev Cons.prems(2)
    by (simp add: handler_status replicate_app_Cons_same)
qed

text \<open>
  C7. The responder answers from the global \<open>healthy\<close> alone: 500 when it is
  false, 200 when it is true, writing no body. The global starts false, so every
  request served before the first poll cycle gets 500; a poll cycle stores the
  aggregate verdict, which the next request reports.
\<close>

theorem responder_reads_healthy:
  "handler p = \<lparr>status = (if healthy p then 200 else 500), written = []\<rparr> \<and>
   healthy init_process = False \<and>
   (Poll \<notin> set evs \<longrightarrow>
      replies (run w config evs) = replicate (length evs) \<lparr>status = 500, written = []\<rparr>) \<and>
   healthy (step w config p Poll) = fst (isLBHealthy w config (calls p)) \<and>
   replies (step w config (step w config p Poll) Request) =
     replies p @ [\<lparr>status = (if fst (isLBHealthy w config (calls p)) then 200 else 500),
                    written = []\<rparr>]"
proof -
  have a: "healthy init_process = False" by (simp add: init_process_def)
  have b: "Poll \<notin> set evs \<longrightarrow>
      replies (run w config evs) = replicate (length evs) \<lparr>status = 500, written = []\<rparr>"
  proof
    assume n: "Poll \<notin> set evs"
    have "\<not> healthy init_process" by (simp add: init_process_def)
    from requests_before_first_poll [OF n this, of w config]
    show "replies (run w config evs) = replicate (length evs) \<lparr>status = 500, written = []\<rparr>"
      by (simp add: run_def init_process_def)
  qed
  have c: "healthy (step w config p Poll) = fst (isLBHealthy w config (calls p))"
    by (simp add: pollHealth_cycle_def split: prod.split)
  have d: "replies (step w config (step w config p Poll) Request) =
     replies p @ [\<lparr>status = (if fst (isLBHealthy w config (calls p)) then 200 else 500),
                    written = []\<rparr>]"
    by (simp add: pollHealth_cycle_def handler_status split: prod.split)
  from handler_status a b c d show ?thesis by blast
qed

theorem responder_reads_healthy_witness:
  "Poll \<notin> set [Request, Request] \<and>
   replies (run steady_world defaultConfig [Request, Request]) =
     [\<lparr>status = 500, written = []\<rparr>, \<lparr>status = 500, written = []\<rparr>] \<and>
   handler init_process = \<lparr>status = 500, written = []\<rparr> \<and>
   handler (init_process\<lparr>healthy := True\<rparr>) = \<lparr>status = 200, written = []\<rparr>"
  using responder_reads_healthy [of init_process "[Request, Request]" steady_world defaultConfig]
    responder_reads_healthy [of "init_process\<lparr>healthy := True\<rparr>" "[]" steady_world defaultConfig]
  by (simp add: init_process_def)

lemma run_example:
  "replies (run steady_world defaultConfig [Request, Poll, Request]) =
     [\<lparr>status = 500, written = []\<rparr>, \<lparr>status = 200, written = []\<rparr>]"
  by (simp add: run_def init_process_def handler_def pollHealth_cycle_def isLBHealthy_def
      consulIsHealthy_def traefikIsHealthy_def steady_world_def defaultConfig_def defaultHosts_def
      node_body_def providers_url_def)

subsection \<open>TTL jitter\<close>

lemma computeTtl_in_window:
  assumes "0 < offset" and "0 \<le> ttl" and "ttl + offset \<le> 2 ^ 63"
  shows "\<exists>r. computeTtl w ttl offset = Inr r \<and> ttl \<le> r \<and> r < ttl + offset"
proof -
  let ?d = "rand_source w (time_Now_Unix w) mod offset"
  have d: "0 \<le> ?d" "?d < offset" using assms(1) by simp_all
  have r: "0 \<le> ?d + ttl" "?d + ttl < 2 ^ 63" using d assms by linarith+
  have "(?d + ttl + 2 ^ 63) mod 2 ^ 64 = ?d + ttl + 2 ^ 63"
    by (rule mod_pos_pos_trivial) (use r in simp_all)
  then have "wrap_int (?d + ttl) = ?d + ttl"
    by (simp add: wrap_int_def)
  then have "computeTtl w ttl offset = Inr (?d + ttl)"
    using assms(1) by (simp add: computeTtl_def rand_Intn_def)
  with d show ?thesis by simp
qed

lemma newConfig_ttl_disabled:
  "HealthyTTLSec (upd defaultConfig) \<le> 0 \<Longrightarrow> newConfig w (Decoded upd) = Inr (upd defaultConfig)"
  by (simp add: newConfig_def)

text \<open>
  C2 at a jitter window of 0: \<^verbatim>\<open>rand.Intn(0)\<close> panics, so the generator returns
  nothing, and a configuration with a positive base TTL and a zero offset aborts
  \<^verbatim>\<open>newConfig\<close>.
\<close>

theorem computeTtl_zero_window_panics:
  "computeTtl w ttl 0 = Inl (Panic ''invalid argument to Intn'') \<and>
   newConfig w (Decoded (\<lambda>c. c\<lparr>HealthyTTLSec := 100, HealthyTTLOffset := 0\<rparr>)) =
     Inl (Panic ''invalid argument to Intn'')"
  by (simp add: computeTtl_def rand_Intn_def newConfig_def)

end
